theory Spec2Isabelle
  imports Complex_Main
begin

section \<open>Python values used by \<open>analysis.py\<close>\<close>

text \<open>
  The module \<open>analysis.py\<close> holds two functions over a pandas data frame keyed by
  U.S. state: \<open>choropleth\<close>, which rewrites the \<open>States\<close> column to postal codes and
  shows a map, and \<open>high_and_low\<close>, which builds one summary row per indicator column.

  Exceptions are values of the type \<open>error\<close>; a call that may raise returns
  \<open>error + 'a\<close> with \<open>Inl\<close> for the exception.  A Python \<open>str\<close> is a list of code
  points; only code points below 256 occur in the module (the sign \<open>\<plusminus>\<close> is code point
  177), so a \<open>char\<close> stands for one code point.
\<close>

datatype error =
    KeyError string
  | AttributeError string
  | NameError string
  | ValueError string

text \<open>
  A Python float is a binary64 number: a finite number, NaN, or an infinity.  A finite
  float is read as the real number it is exactly.
\<close>

datatype pyfloat = Finite real | NaN | PosInf | NegInf

text \<open>
  The reals that are finite binary64 numbers: an integer below \<open>2^53\<close> in magnitude
  times a power of two between \<open>2^-1074\<close> and \<open>2^971\<close>.  Every integer up to
  \<open>2^53\<close> is one, the decimal 0.9 is not: the literal \<open>0.9\<close> denotes the binary64 number
  nearest to it.
\<close>

definition binary64 :: "real \<Rightarrow> bool" where
  "binary64 x =
     (\<exists>m p q. \<bar>m\<bar> < 2 ^ 53 \<and> p \<le> 971 \<and> q \<le> 1074 \<and>
        x = real_of_int m * 2 ^ p / 2 ^ q)"

definition float_0_9 :: real where
  "float_0_9 = 8106479329266893 / 2 ^ 53"

definition float_0_8 :: real where
  "float_0_8 = 7205759403792794 / 2 ^ 53"

subsection \<open>\<open>str.strip\<close>\<close>

text \<open>
  \<open>str.isspace\<close> on one code point below 256: the controls 9 to 13 and 28 to 31, the
  space, NEL (133) and the no-break space (160).
\<close>

definition isspace :: "char \<Rightarrow> bool" where
  "isspace c =
     (let n = (of_char c :: nat)
      in (9 \<le> n \<and> n \<le> 13) \<or> (28 \<le> n \<and> n \<le> 32) \<or> n = 133 \<or> n = 160)"

text \<open>
  \<open>s.strip()\<close> with no argument: the index moves right over leading whitespace, then
  left over trailing whitespace, and the slice between them is returned.
\<close>

definition strip :: "string \<Rightarrow> string" where
  "strip s = rev (dropWhile isspace (rev (dropWhile isspace s)))"

subsection \<open>The state directory \<open>us.states\<close>\<close>

text \<open>
  \<open>us.states.lookup\<close> belongs to the package \<open>us\<close>, outside the repository.  It
  returns a state object or \<open>None\<close>; the module reads the attribute \<open>abbr\<close> of the
  result.  The functions below take the lookup as a parameter.
\<close>

record us_state =
  state_name :: string
  abbr :: string

text \<open>
  Modelled from the spec: the state-name directory service, "providing canonical U.S.
  state names and their two-letter postal abbreviations, queried by full name".  The
  table lists the fifty states; the District of Columbia is not in it, since the module
  answers for it before asking the directory.
\<close>

definition canonical_states :: "(string \<times> string) list" where
  "canonical_states =
    [(''Alabama'', ''AL''), (''Alaska'', ''AK''), (''Arizona'', ''AZ''),
     (''Arkansas'', ''AR''), (''California'', ''CA''), (''Colorado'', ''CO''),
     (''Connecticut'', ''CT''), (''Delaware'', ''DE''), (''Florida'', ''FL''),
     (''Georgia'', ''GA''), (''Hawaii'', ''HI''), (''Idaho'', ''ID''),
     (''Illinois'', ''IL''), (''Indiana'', ''IN''), (''Iowa'', ''IA''),
     (''Kansas'', ''KS''), (''Kentucky'', ''KY''), (''Louisiana'', ''LA''),
     (''Maine'', ''ME''), (''Maryland'', ''MD''), (''Massachusetts'', ''MA''),
     (''Michigan'', ''MI''), (''Minnesota'', ''MN''), (''Mississippi'', ''MS''),
     (''Missouri'', ''MO''), (''Montana'', ''MT''), (''Nebraska'', ''NE''),
     (''Nevada'', ''NV''), (''New Hampshire'', ''NH''), (''New Jersey'', ''NJ''),
     (''New Mexico'', ''NM''), (''New York'', ''NY''), (''North Carolina'', ''NC''),
     (''North Dakota'', ''ND''), (''Ohio'', ''OH''), (''Oklahoma'', ''OK''),
     (''Oregon'', ''OR''), (''Pennsylvania'', ''PA''), (''Rhode Island'', ''RI''),
     (''South Carolina'', ''SC''), (''South Dakota'', ''SD''), (''Tennessee'', ''TN''),
     (''Texas'', ''TX''), (''Utah'', ''UT''), (''Vermont'', ''VT''),
     (''Virginia'', ''VA''), (''Washington'', ''WA''), (''West Virginia'', ''WV''),
     (''Wisconsin'', ''WI''), (''Wyoming'', ''WY'')]"

definition directory_lookup :: "string \<Rightarrow> us_state option" where
  "directory_lookup name =
     (case map_of canonical_states name of
        None \<Rightarrow> None
      | Some a \<Rightarrow> Some \<lparr>state_name = name, abbr = a\<rparr>)"

text \<open>
  A lookup agrees with the directory when it finds every canonical name and the state
  it returns carries that name's postal code.
\<close>

definition agrees_with_directory :: "(string \<Rightarrow> us_state option) \<Rightarrow> bool" where
  "agrees_with_directory lookup =
     list_all (\<lambda>(n, a). case lookup n of None \<Rightarrow> False | Some st \<Rightarrow> abbr st = a)
       canonical_states"

text \<open>
  The nested function \<open>get_abbr\<close> of \<open>choropleth\<close>.  When the lookup returns \<open>None\<close>,
  reading \<open>state.abbr\<close> raises \<open>AttributeError\<close>.
\<close>

definition get_abbr :: "(string \<Rightarrow> us_state option) \<Rightarrow> string \<Rightarrow> error + string" where
  "get_abbr lookup name =
     (if name = ''District of Columbia'' then Inr ''DC''
      else case lookup name of
             None \<Rightarrow> Inl (AttributeError ''abbr'')
           | Some state \<Rightarrow> Inr (abbr state))"

section \<open>The data frame\<close>

text \<open>
  The data set has one row per state.  Its column \<open>States\<close> holds text, every other
  column holds finite floats; a column is the list of its cells in row order, and the
  rows carry the default labels \<open>0, 1, 2, ...\<close>, so a row label is a position.  A
  column that the frame does not have is \<open>None\<close>, and reading it raises \<open>KeyError\<close>.
\<close>

record dataframe =
  States :: "string list option"
  numeric :: "string \<rightharpoonup> real list"

definition getitem_States :: "dataframe \<Rightarrow> error + string list" where
  "getitem_States df =
     (case States df of None \<Rightarrow> Inl (KeyError ''States'') | Some col \<Rightarrow> Inr col)"

definition getitem :: "dataframe \<Rightarrow> string \<Rightarrow> error + real list" where
  "getitem df col =
     (case numeric df col of None \<Rightarrow> Inl (KeyError col) | Some xs \<Rightarrow> Inr xs)"

text \<open>\<open>df.loc[i, "States"]\<close>: the cell of the row labelled \<open>i\<close>, \<open>KeyError\<close> without it.\<close>

definition loc_States :: "dataframe \<Rightarrow> nat \<Rightarrow> error + string" where
  "loc_States df i =
     (case States df of
        None \<Rightarrow> Inl (KeyError ''States'')
      | Some col \<Rightarrow> if i < length col then Inr (col ! i) else Inl (KeyError ''row''))"

text \<open>
  \<open>Series.apply(f)\<close> calls \<open>f\<close> on the cells in row order and collects the results;
  the first exception ends the call.
\<close>

fun series_apply :: "('a \<Rightarrow> error + 'b) \<Rightarrow> 'a list \<Rightarrow> error + 'b list" where
  "series_apply f [] = Inr []"
| "series_apply f (x # xs) =
     (case f x of
        Inl e \<Rightarrow> Inl e
      | Inr y \<Rightarrow> (case series_apply f xs of Inl e \<Rightarrow> Inl e | Inr ys \<Rightarrow> Inr (y # ys)))"

subsection \<open>Reductions of a numeric column\<close>

text \<open>
  The reductions belong to the statistics library (pandas), outside the repository.

  \<open>Series.mean\<close> and \<open>Series.std\<close> compute in binary64: their results are rounded,
  depend on the order in which the library adds, and overflow to an infinity on cells
  that are large enough.  The functions of the module therefore take the library's
  \<open>mean\<close> and \<open>std\<close> as parameters, of type \<open>real list \<Rightarrow> pyfloat\<close>, and nothing is
  assumed of them beyond what a theorem states.

  Modelled from the spec: "arithmetic mean and sample standard deviation across all
  rows", as the mathematical functions of those words, with the library's convention
  that the mean of no rows and the deviation of fewer than two rows are NaN.  They are
  the values that the library's results approximate, and they stand for the library
  where an example is run.
\<close>

definition arithmetic_mean :: "real list \<Rightarrow> pyfloat" where
  "arithmetic_mean xs = (if xs = [] then NaN else Finite (sum_list xs / real (length xs)))"

definition sample_std :: "real list \<Rightarrow> pyfloat" where
  "sample_std xs =
     (if length xs < 2 then NaN
      else let m = sum_list xs / real (length xs)
           in Finite (sqrt (sum_list (map (\<lambda>x. (x - m)\<^sup>2) xs) / real (length xs - 1))))"

text \<open>
  Modelled from the spec: the maximum and the minimum, and the label of the row "where
  that extreme occurs (first occurrence if ties exist)".  They compare cells and return
  a cell, so nothing is rounded.  The maximum and the minimum of no rows are NaN;
  \<open>idxmax\<close> and \<open>idxmin\<close> of no rows raise \<open>ValueError\<close>.
\<close>

definition series_max :: "real list \<Rightarrow> pyfloat" where
  "series_max xs = (case xs of [] \<Rightarrow> NaN | x # rest \<Rightarrow> Finite (fold max rest x))"

definition series_min :: "real list \<Rightarrow> pyfloat" where
  "series_min xs = (case xs of [] \<Rightarrow> NaN | x # rest \<Rightarrow> Finite (fold min rest x))"

text \<open>
  The scan behind \<open>idxmax\<close>: \<open>best\<close> is the position of the largest cell seen so far
  and moves only to a strictly larger cell, so of equal cells the first one stays.
\<close>

fun argmax_scan :: "real list \<Rightarrow> nat \<Rightarrow> nat \<Rightarrow> real \<Rightarrow> nat" where
  "argmax_scan [] i best v = best"
| "argmax_scan (x # xs) i best v =
     (if v < x then argmax_scan xs (Suc i) i x else argmax_scan xs (Suc i) best v)"

fun argmin_scan :: "real list \<Rightarrow> nat \<Rightarrow> nat \<Rightarrow> real \<Rightarrow> nat" where
  "argmin_scan [] i best v = best"
| "argmin_scan (x # xs) i best v =
     (if x < v then argmin_scan xs (Suc i) i x else argmin_scan xs (Suc i) best v)"

definition idxmax :: "real list \<Rightarrow> error + nat" where
  "idxmax xs =
     (case xs of
        [] \<Rightarrow> Inl (ValueError ''attempt to get argmax of an empty sequence'')
      | x # rest \<Rightarrow> Inr (argmax_scan rest 1 0 x))"

definition idxmin :: "real list \<Rightarrow> error + nat" where
  "idxmin xs =
     (case xs of
        [] \<Rightarrow> Inl (ValueError ''attempt to get argmin of an empty sequence'')
      | x # rest \<Rightarrow> Inr (argmin_scan rest 1 0 x))"

subsection \<open>The format \<open>.2f\<close>\<close>

text \<open>
  \<open>f"{x:.2f}"\<close> prints the decimal numeral with two fraction digits that is nearest to
  \<open>x\<close>, a tie going to the even last digit, with a minus sign when \<open>x\<close> is negative
  (also when the digits are all zero); NaN prints as \<open>nan\<close>, the infinities as \<open>inf\<close>
  and \<open>-inf\<close>.
\<close>

definition digit_char :: "nat \<Rightarrow> char" where
  "digit_char d = ''0123456789'' ! d"

fun str_nat :: "nat \<Rightarrow> string" where
  "str_nat n = (if n < 10 then [digit_char n] else str_nat (n div 10) @ [digit_char (n mod 10)])"

definition round_half_even :: "real \<Rightarrow> int" where
  "round_half_even y =
     (let f = \<lfloor>y\<rfloor>; d = y - of_int f
      in if d < 1 / 2 then f else if 1 / 2 < d then f + 1 else if even f then f else f + 1)"

definition format_2f :: "pyfloat \<Rightarrow> string" where
  "format_2f v =
     (case v of
        NaN \<Rightarrow> ''nan''
      | PosInf \<Rightarrow> ''inf''
      | NegInf \<Rightarrow> ''-inf''
      | Finite x \<Rightarrow>
          let n = nat (round_half_even (\<bar>x\<bar> * 100))
          in (if x < 0 then ''-'' else []) @ str_nat (n div 100) @ ''.''
             @ [digit_char (n div 10 mod 10), digit_char (n mod 10)])"




section \<open>The two functions\<close>

text \<open>
  Both functions bind \<open>df = final_data_set\<close>: \<open>df\<close> is the caller's object, not a copy.
  The world holds the data frames by reference, the figures that \<open>fig.show()\<close> has
  displayed and the tables that \<open>print\<close> has written.  A function takes the reference
  of its argument and the world, and returns its outcome with the world it leaves, also
  when it raises.
\<close>

record summary_row =
  Variable :: string
  Average_SD :: string
  Highest_State :: string
  Lowest_State :: string

text \<open>
  The figure of the plotting library, outside the repository: it is recorded as the
  arguments that \<open>px.choropleth\<close> was called with.
\<close>

record figure =
  data_frame :: dataframe
  locations :: string
  locationmode :: string
  color :: string
  scope :: string
  color_continuous_scale :: "string list"
  range_color :: "pyfloat \<times> pyfloat"
  labels :: "(string \<times> string) list"

type_synonym ref = nat

record world =
  heap :: "ref \<Rightarrow> dataframe"
  shown :: "figure list"
  stdout :: "summary_row list list"

text \<open>\<open>df["States"] = col\<close> on the object behind the reference.\<close>

definition setitem_States :: "ref \<Rightarrow> string list \<Rightarrow> world \<Rightarrow> world" where
  "setitem_States r col w = w\<lparr>heap := (heap w)(r := (heap w r)\<lparr>States := Some col\<rparr>)\<rparr>"

subsection \<open>\<open>choropleth\<close>\<close>

definition color_scale :: "string list" where
  "color_scale = [''green'', ''yellow'', ''orange'', ''red'']"

definition px_choropleth ::
  "dataframe \<Rightarrow> string \<Rightarrow> string \<Rightarrow> string \<Rightarrow> string \<Rightarrow> string list \<Rightarrow>
   pyfloat \<times> pyfloat \<Rightarrow> (string \<times> string) list \<Rightarrow> figure" where
  "px_choropleth df loc mode col sc scale rng lab =
     \<lparr>data_frame = df, locations = loc, locationmode = mode, color = col, scope = sc,
      color_continuous_scale = scale, range_color = rng, labels = lab\<rparr>"

definition choropleth ::
  "(string \<Rightarrow> us_state option) \<Rightarrow> ref \<Rightarrow> world \<Rightarrow> (error + unit) \<times> world" where
  "choropleth lookup final_data_set w =
     (let df = final_data_set in
      case getitem_States (heap w df) of
        Inl e \<Rightarrow> (Inl e, w)
      | Inr col \<Rightarrow>
          let w1 = setitem_States df (map strip col) w in
          (case getitem_States (heap w1 df) of
             Inl e \<Rightarrow> (Inl e, w1)
           | Inr col1 \<Rightarrow>
               (case series_apply (get_abbr lookup) col1 of
                  Inl e \<Rightarrow> (Inl e, w1)
                | Inr abbrs \<Rightarrow>
                    let w2 = setitem_States df abbrs w1 in
                    (case getitem (heap w2 df) ''Avg_PM25'' of
                       Inl e \<Rightarrow> (Inl e, w2)
                     | Inr pm \<Rightarrow>
                         let fig = px_choropleth (heap w2 df) ''States'' ''USA-states''
                                     ''Avg_PM25'' ''usa'' color_scale
                                     (series_min pm, series_max pm)
                                     [(''Avg_PM25'', ''Average PM2.5'')]
                         in (Inr (), w2\<lparr>shown := shown w2 @ [fig]\<rparr>)))))"

subsection \<open>\<open>high_and_low\<close>\<close>

definition columns_to_summarize :: "string list" where
  "columns_to_summarize =
     [''Not_graduated'', ''HDI'', ''Health_Index'',
      ''Education_Index'', ''Income_Index'',
      ''Homeless_Ratio'', ''Unsheltered_Homeless'', ''Avg_PM25'']"

text \<open>The text between the mean and the deviation: a space, the sign 177, a space.\<close>

definition plus_minus :: string where
  "plus_minus = [CHR '' '', CHR 0xB1, CHR '' '']"

text \<open>
  The body of the loop for one column: the six reductions, then the row.  \<open>mean\<close> and
  \<open>std\<close> are the library's \<open>Series.mean\<close> and \<open>Series.std\<close>.
\<close>

definition summarize_column ::
  "(real list \<Rightarrow> pyfloat) \<Rightarrow> (real list \<Rightarrow> pyfloat) \<Rightarrow> dataframe \<Rightarrow> string \<Rightarrow>
   error + summary_row" where
  "summarize_column mean std df col =
     (case getitem df col of
        Inl e \<Rightarrow> Inl e
      | Inr xs \<Rightarrow>
          let mean_val = mean xs;
              std_val = std xs;
              max_val = series_max xs;
              min_val = series_min xs
          in (case idxmax xs of
                Inl e \<Rightarrow> Inl e
              | Inr imax \<Rightarrow>
                  (case loc_States df imax of
                     Inl e \<Rightarrow> Inl e
                   | Inr state_max \<Rightarrow>
                       (case idxmin xs of
                          Inl e \<Rightarrow> Inl e
                        | Inr imin \<Rightarrow>
                            (case loc_States df imin of
                               Inl e \<Rightarrow> Inl e
                             | Inr state_min \<Rightarrow>
                                 Inr \<lparr>Variable = col,
                                      Average_SD =
                                        format_2f mean_val @ plus_minus @ format_2f std_val,
                                      Highest_State =
                                        state_max @ '' ('' @ format_2f max_val @ '')'',
                                      Lowest_State =
                                        state_min @ '' ('' @ format_2f min_val @ '')''\<rparr>)))))"

text \<open>The loop over the columns; \<open>summary\<close> is the list that the rows are appended to.\<close>

fun summary_loop ::
  "(real list \<Rightarrow> pyfloat) \<Rightarrow> (real list \<Rightarrow> pyfloat) \<Rightarrow> dataframe \<Rightarrow> string list \<Rightarrow>
   summary_row list \<Rightarrow> error + summary_row list" where
  "summary_loop mean std df [] summary = Inr summary"
| "summary_loop mean std df (col # cols) summary =
     (case summarize_column mean std df col of
        Inl e \<Rightarrow> Inl e
      | Inr row \<Rightarrow> summary_loop mean std df cols (summary @ [row]))"

text \<open>
  The names bound in the module: its two imports, \<open>plotly.express as px\<close> and \<open>us\<close>,
  and its two functions.  Reading any other global name that is not a builtin raises
  \<open>NameError\<close>.
\<close>

definition module_globals :: "string list" where
  "module_globals = [''px'', ''us'', ''choropleth'', ''high_and_low'']"

definition load_global :: "string \<Rightarrow> error + unit" where
  "load_global name = (if name \<in> set module_globals then Inr () else Inl (NameError name))"

text \<open>
  After the loop the function evaluates \<open>pd.DataFrame(summary)\<close> and prints the table;
  the name \<open>pd\<close> is read first.
\<close>

definition high_and_low ::
  "(real list \<Rightarrow> pyfloat) \<Rightarrow> (real list \<Rightarrow> pyfloat) \<Rightarrow> ref \<Rightarrow> world \<Rightarrow>
   (error + unit) \<times> world" where
  "high_and_low mean std final_data_set w =
     (let df = final_data_set in
      case summary_loop mean std (heap w df) columns_to_summarize [] of
        Inl e \<Rightarrow> (Inl e, w)
      | Inr summary \<Rightarrow>
          (case load_global ''pd'' of
             Inl e \<Rightarrow> (Inl e, w)
           | Inr _ \<Rightarrow> (Inr (), w\<lparr>stdout := stdout w @ [summary]\<rparr>)))"

section \<open>Reference data and sample data sets\<close>

text \<open>
  The names that the data model allows in the column \<open>States\<close>, each with its postal
  code: the District of Columbia and the fifty states.
\<close>

definition postal_codes :: "(string \<times> string) list" where
  "postal_codes = (''District of Columbia'', ''DC'') # canonical_states"

definition initial_world :: "dataframe \<Rightarrow> world" where
  "initial_world df = \<lparr>heap = (\<lambda>_. df), shown = [], stdout = []\<rparr>"

definition two_state_frame :: dataframe where
  "two_state_frame =
     \<lparr>States = Some [''California'', ''Texas''],
      numeric = map_of
        [(''Not_graduated'', [16, 15]), (''HDI'', [float_0_9, float_0_8]),
         (''Health_Index'', [7, 6]), (''Education_Index'', [5, 6]),
         (''Income_Index'', [4, 3]), (''Homeless_Ratio'', [2, 1]),
         (''Unsheltered_Homeless'', [3, 3]), (''Avg_PM25'', [10, 20])]\<rparr>"

definition abbreviated_frame :: dataframe where
  "abbreviated_frame = two_state_frame\<lparr>States := Some [''CA'', ''TX'']\<rparr>"

definition padded_frame :: dataframe where
  "padded_frame = two_state_frame\<lparr>States := Some [''  District of Columbia'', ''Ohio  '']\<rparr>"

definition atlantis_frame :: dataframe where
  "atlantis_frame = two_state_frame\<lparr>States := Some ['' Texas'', ''Atlantis '']\<rparr>"


definition tied_frame :: dataframe where
  "tied_frame =
     \<lparr>States = Some [''Ohio'', ''Utah'', ''Iowa'', ''Maine'', ''Texas''],
      numeric = map_of
        [(''Not_graduated'', [16, 15, 14, 13, 12]), (''HDI'', [1, 3, 3, 0, 0]),
         (''Health_Index'', [7, 6, 5, 4, 3]), (''Education_Index'', [5, 6, 5, 6, 5]),
         (''Income_Index'', [4, 3, 4, 3, 4]), (''Homeless_Ratio'', [2, 1, 2, 1, 2]),
         (''Unsheltered_Homeless'', [3, 3, 3, 3, 3]), (''Avg_PM25'', [10, 20, 30, 40, 50])]\<rparr>"

section \<open>Properties\<close>

subsection \<open>Facts about \<open>strip\<close>\<close>

lemma rstrip_Cons:
  "\<not> P x \<Longrightarrow> rev (dropWhile P (rev (x # xs))) = x # rev (dropWhile P (rev xs))"
  by (simp add: dropWhile_append)

lemma strip_fixed: "dropWhile isspace (strip s) = strip s"
proof (cases "dropWhile isspace s")
  case Nil
  have "strip s = []" unfolding strip_def Nil by simp
  then show ?thesis by simp
next
  case (Cons x t)
  have "\<not> isspace x" using hd_dropWhile [of isspace s] Cons by simp
  then show ?thesis using Cons by (simp add: strip_def rstrip_Cons del: rev.simps)
qed

subsection \<open>Extremes and their positions\<close>

lemma fold_max_Max: "fold max rest (x::real) = Max (set (x # rest))"
  by (simp only: Max.set_eq_fold)

lemma fold_min_Min: "fold min rest (x::real) = Min (set (x # rest))"
  by (simp only: Min.set_eq_fold)

lemma argmax_scan_first:
  assumes "length pre = i" "best < i" "pre ! best = v"
    "\<forall>k<i. pre ! k \<le> v" "\<forall>k<best. pre ! k < v"
  shows "argmax_scan xs i best v < length (pre @ xs) \<and>
         (\<forall>k<length (pre @ xs). (pre @ xs) ! k \<le> (pre @ xs) ! argmax_scan xs i best v) \<and>
         (\<forall>k<argmax_scan xs i best v. (pre @ xs) ! k < (pre @ xs) ! argmax_scan xs i best v)"
  using assms
proof (induction xs arbitrary: pre i best v)
  case Nil
  then show ?case by simp
next
  case (Cons x xs)
  let ?pre = "pre @ [x]"
  show ?case
  proof (cases "v < x")
    case True
    have "argmax_scan xs (Suc i) i x < length (?pre @ xs) \<and>
         (\<forall>k<length (?pre @ xs). (?pre @ xs) ! k \<le> (?pre @ xs) ! argmax_scan xs (Suc i) i x) \<and>
         (\<forall>k<argmax_scan xs (Suc i) i x. (?pre @ xs) ! k < (?pre @ xs) ! argmax_scan xs (Suc i) i x)"
    proof (rule Cons.IH)
      show "length ?pre = Suc i" using Cons.prems by simp
      show "i < Suc i" by simp
      show "?pre ! i = x" using Cons.prems by (simp add: nth_append)
      show "\<forall>k<Suc i. ?pre ! k \<le> x"
        using Cons.prems True by (auto simp: nth_append less_Suc_eq intro: order_trans less_imp_le)
      show "\<forall>k<i. ?pre ! k < x"
        using Cons.prems True by (auto simp: nth_append intro: le_less_trans)
    qed
    then show ?thesis using True by simp
  next
    case False
    have "argmax_scan xs (Suc i) best v < length (?pre @ xs) \<and>
         (\<forall>k<length (?pre @ xs). (?pre @ xs) ! k \<le> (?pre @ xs) ! argmax_scan xs (Suc i) best v) \<and>
         (\<forall>k<argmax_scan xs (Suc i) best v. (?pre @ xs) ! k < (?pre @ xs) ! argmax_scan xs (Suc i) best v)"
    proof (rule Cons.IH)
      show "length ?pre = Suc i" using Cons.prems by simp
      show "best < Suc i" using Cons.prems by simp
      show "?pre ! best = v" using Cons.prems by (simp add: nth_append)
      show "\<forall>k<Suc i. ?pre ! k \<le> v"
        using Cons.prems False by (auto simp: nth_append less_Suc_eq)
      show "\<forall>k<best. ?pre ! k < v"
        using Cons.prems by (auto simp: nth_append)
    qed
    then show ?thesis using False by simp
  qed
qed

lemma idxmax_first:
  assumes "xs \<noteq> []"
  shows "\<exists>i. idxmax xs = Inr i \<and> i < length xs \<and> xs ! i = Max (set xs) \<and>
             (\<forall>k<i. xs ! k < xs ! i)"
proof -
  obtain x rest where xs: "xs = x # rest" using assms by (cases xs) auto
  define i where "i = argmax_scan rest 1 0 x"
  have "argmax_scan rest 1 0 x < length ([x] @ rest) \<and>
         (\<forall>k<length ([x] @ rest). ([x] @ rest) ! k \<le> ([x] @ rest) ! argmax_scan rest 1 0 x) \<and>
         (\<forall>k<argmax_scan rest 1 0 x. ([x] @ rest) ! k < ([x] @ rest) ! argmax_scan rest 1 0 x)"
    by (rule argmax_scan_first) simp_all
  then have h: "i < length xs" "\<forall>k<length xs. xs ! k \<le> xs ! i" "\<forall>k<i. xs ! k < xs ! i"
    unfolding i_def [symmetric] xs by simp_all
  have "Max (set xs) = xs ! i"
  proof (rule Max_eqI)
    show "finite (set xs)" by simp
    show "\<And>y. y \<in> set xs \<Longrightarrow> y \<le> xs ! i"
      using h(2) by (auto simp: in_set_conv_nth)
    show "xs ! i \<in> set xs" using h(1) by simp
  qed
  moreover have "idxmax xs = Inr i" by (simp add: idxmax_def xs i_def)
  ultimately show ?thesis using h by simp
qed

lemma argmin_scan_first:
  assumes "length pre = i" "best < i" "pre ! best = v"
    "\<forall>k<i. v \<le> pre ! k" "\<forall>k<best. v < pre ! k"
  shows "argmin_scan xs i best v < length (pre @ xs) \<and>
         (\<forall>k<length (pre @ xs). (pre @ xs) ! argmin_scan xs i best v \<le> (pre @ xs) ! k) \<and>
         (\<forall>k<argmin_scan xs i best v. (pre @ xs) ! argmin_scan xs i best v < (pre @ xs) ! k)"
  using assms
proof (induction xs arbitrary: pre i best v)
  case Nil
  then show ?case by simp
next
  case (Cons x xs)
  let ?pre = "pre @ [x]"
  show ?case
  proof (cases "x < v")
    case True
    have "argmin_scan xs (Suc i) i x < length (?pre @ xs) \<and>
         (\<forall>k<length (?pre @ xs). (?pre @ xs) ! argmin_scan xs (Suc i) i x \<le> (?pre @ xs) ! k) \<and>
         (\<forall>k<argmin_scan xs (Suc i) i x. (?pre @ xs) ! argmin_scan xs (Suc i) i x < (?pre @ xs) ! k)"
    proof (rule Cons.IH)
      show "length ?pre = Suc i" using Cons.prems by simp
      show "i < Suc i" by simp
      show "?pre ! i = x" using Cons.prems by (simp add: nth_append)
      show "\<forall>k<Suc i. x \<le> ?pre ! k"
        using Cons.prems True by (auto simp: nth_append less_Suc_eq intro: order_trans less_imp_le)
      show "\<forall>k<i. x < ?pre ! k"
        using Cons.prems True by (auto simp: nth_append intro: less_le_trans)
    qed
    then show ?thesis using True by simp
  next
    case False
    have "argmin_scan xs (Suc i) best v < length (?pre @ xs) \<and>
         (\<forall>k<length (?pre @ xs). (?pre @ xs) ! argmin_scan xs (Suc i) best v \<le> (?pre @ xs) ! k) \<and>
         (\<forall>k<argmin_scan xs (Suc i) best v. (?pre @ xs) ! argmin_scan xs (Suc i) best v < (?pre @ xs) ! k)"
    proof (rule Cons.IH)
      show "length ?pre = Suc i" using Cons.prems by simp
      show "best < Suc i" using Cons.prems by simp
      show "?pre ! best = v" using Cons.prems by (simp add: nth_append)
      show "\<forall>k<Suc i. v \<le> ?pre ! k"
        using Cons.prems False by (auto simp: nth_append less_Suc_eq)
      show "\<forall>k<best. v < ?pre ! k"
        using Cons.prems by (auto simp: nth_append)
    qed
    then show ?thesis using False by simp
  qed
qed

lemma idxmin_first:
  assumes "xs \<noteq> []"
  shows "\<exists>i. idxmin xs = Inr i \<and> i < length xs \<and> xs ! i = Min (set xs) \<and>
             (\<forall>k<i. xs ! i < xs ! k)"
proof -
  obtain x rest where xs: "xs = x # rest" using assms by (cases xs) auto
  define i where "i = argmin_scan rest 1 0 x"
  have "argmin_scan rest 1 0 x < length ([x] @ rest) \<and>
         (\<forall>k<length ([x] @ rest). ([x] @ rest) ! argmin_scan rest 1 0 x \<le> ([x] @ rest) ! k) \<and>
         (\<forall>k<argmin_scan rest 1 0 x. ([x] @ rest) ! argmin_scan rest 1 0 x < ([x] @ rest) ! k)"
    by (rule argmin_scan_first) simp_all
  then have h: "i < length xs" "\<forall>k<length xs. xs ! i \<le> xs ! k" "\<forall>k<i. xs ! i < xs ! k"
    unfolding i_def [symmetric] xs by simp_all
  have "Min (set xs) = xs ! i"
  proof (rule Min_eqI)
    show "finite (set xs)" by simp
    show "\<And>y. y \<in> set xs \<Longrightarrow> xs ! i \<le> y"
      using h(2) by (auto simp: in_set_conv_nth)
    show "xs ! i \<in> set xs" using h(1) by simp
  qed
  moreover have "idxmin xs = Inr i" by (simp add: idxmin_def xs i_def)
  ultimately show ?thesis using h by simp
qed

lemma idxmax_eq:
  assumes "i < length xs" "xs ! i = Max (set xs)" "\<forall>k<i. xs ! k \<noteq> Max (set xs)"
  shows "idxmax xs = Inr i"
proof -
  have "xs \<noteq> []" using assms(1) by auto
  then obtain j where j: "idxmax xs = Inr j" "j < length xs" "xs ! j = Max (set xs)"
    "\<forall>k<j. xs ! k < xs ! j"
    using idxmax_first by blast
  have "\<not> j < i" using assms(3) j(3) by auto
  moreover have "\<not> i < j" using j(4) j(3) assms(2) by auto
  ultimately show ?thesis using j(1) by simp
qed

lemma idxmin_eq:
  assumes "i < length xs" "xs ! i = Min (set xs)" "\<forall>k<i. xs ! k \<noteq> Min (set xs)"
  shows "idxmin xs = Inr i"
proof -
  have "xs \<noteq> []" using assms(1) by auto
  then obtain j where j: "idxmin xs = Inr j" "j < length xs" "xs ! j = Min (set xs)"
    "\<forall>k<j. xs ! j < xs ! k"
    using idxmin_first by blast
  have "\<not> j < i" using assms(3) j(3) by auto
  moreover have "\<not> i < j" using j(4) j(3) assms(2) by auto
  ultimately show ?thesis using j(1) by simp
qed

lemma series_max_Max: "xs \<noteq> [] \<Longrightarrow> series_max xs = Finite (Max (set xs))"
  by (cases xs) (simp_all add: series_max_def fold_max_Max del: set_simps)

lemma series_min_Min: "xs \<noteq> [] \<Longrightarrow> series_min xs = Finite (Min (set xs))"
  by (cases xs) (simp_all add: series_min_def fold_min_Min del: set_simps)

subsection \<open>Digits of the format\<close>





subsection \<open>Whitespace trimming\<close>

text \<open>
  C10.  Trimming is idempotent: trimming a name that has already been trimmed returns
  it unchanged.
\<close>

theorem strip_idempotent: "strip (strip s) = strip s"
proof -
  have "strip (strip s) = rev (dropWhile isspace (rev (strip s)))"
    unfolding strip_def [of "strip s"] strip_fixed ..
  also have "\<dots> = strip s"
    by (simp add: strip_def)
  finally show ?thesis .
qed

subsection \<open>The postal codes\<close>

lemma postal_codes_two_letters: "list_all (\<lambda>(n, a). length a = 2) postal_codes"
  by (simp add: postal_codes_def canonical_states_def)

lemma distinct_postal_names: "distinct (map fst postal_codes)"
  by code_simp

lemma distinct_postal_abbrs: "distinct (map snd postal_codes)"
  by code_simp

lemma postal_code_unique:
  assumes "(n, a) \<in> set postal_codes" "(n', a') \<in> set postal_codes"
  shows "n = n' \<longleftrightarrow> a = a'"
proof -
  have "inj_on fst (set postal_codes)" "inj_on snd (set postal_codes)"
    using distinct_postal_names distinct_postal_abbrs by (simp_all add: distinct_map)
  then have "fst (n, a) = fst (n', a') \<Longrightarrow> (n, a) = (n', a')"
    and "snd (n, a) = snd (n', a') \<Longrightarrow> (n, a) = (n', a')"
    using assms by (blast dest: inj_onD)+
  then show ?thesis by auto
qed

lemma agrees_directory_lookup: "agrees_with_directory directory_lookup"
  by code_simp

lemma get_abbr_canonical:
  assumes "agrees_with_directory lookup" "(n, a) \<in> set postal_codes"
  shows "get_abbr lookup n = Inr a"
proof (cases "n = ''District of Columbia''")
  case True
  have dc: "(''District of Columbia'', ''DC'') \<in> set postal_codes"
    by (simp add: postal_codes_def)
  have "(n = ''District of Columbia'') = (a = ''DC'')"
    by (rule postal_code_unique [OF assms(2) dc])
  then have "a = ''DC''" using True by simp
  then show ?thesis using True by (simp add: get_abbr_def)
next
  case False
  then have "(n, a) \<in> set canonical_states" using assms(2) by (simp add: postal_codes_def)
  then have "case lookup n of None \<Rightarrow> False | Some st \<Rightarrow> abbr st = a"
    using assms(1) by (auto simp: agrees_with_directory_def list_all_iff)
  then show ?thesis using False by (simp add: get_abbr_def split: option.splits)
qed

text \<open>
  C2.  When the lookup agrees with the directory, every cell of \<open>States\<close> whose trimmed
  text is the District of Columbia or one of the fifty state names is turned by
  \<open>get_abbr\<close> into that name's postal code; the code has two letters, no other name
  has it, and the District of Columbia gets \<open>DC\<close>.
\<close>

theorem get_abbr_postal_code:
  assumes "agrees_with_directory lookup"
    and "(n, a) \<in> set postal_codes"
    and "strip raw = n"
  shows "get_abbr lookup (strip raw) = Inr a \<and> length a = 2 \<and>
         (\<forall>n' a'. (n', a') \<in> set postal_codes \<and> n' \<noteq> n \<longrightarrow> a' \<noteq> a) \<and>
         get_abbr lookup ''District of Columbia'' = Inr ''DC''"
proof -
  have "get_abbr lookup (strip raw) = Inr a"
    using get_abbr_canonical [OF assms(1,2)] assms(3) by simp
  moreover have "length a = 2"
    using postal_codes_two_letters assms(2) by (auto simp: list_all_iff)
  moreover have "\<forall>n' a'. (n', a') \<in> set postal_codes \<and> n' \<noteq> n \<longrightarrow> a' \<noteq> a"
    using postal_code_unique [OF assms(2)] by blast
  moreover have "get_abbr lookup ''District of Columbia'' = Inr ''DC''"
    by (simp add: get_abbr_def)
  ultimately show ?thesis by simp
qed

theorem get_abbr_postal_code_witness:
  "agrees_with_directory directory_lookup \<and>
   (''New York'', ''NY'') \<in> set postal_codes \<and>
   strip ''  New York '' = ''New York'' \<and>
   get_abbr directory_lookup (strip ''  New York '') = Inr ''NY''"
proof -
  have h1: "agrees_with_directory directory_lookup" by (rule agrees_directory_lookup)
  have h2: "(''New York'', ''NY'') \<in> set postal_codes"
    by (simp add: postal_codes_def canonical_states_def)
  have h3: "strip ''  New York '' = ''New York''"
    by (simp add: strip_def isspace_def)
  show ?thesis using get_abbr_postal_code [OF h1 h2 h3] h1 h2 h3 by simp
qed

subsection \<open>\<open>choropleth\<close>\<close>

lemma series_apply_Inr:
  "series_apply f xs = Inr ys \<longleftrightarrow>
     length ys = length xs \<and> (\<forall>i<length xs. f (xs ! i) = Inr (ys ! i))"
proof (induction xs arbitrary: ys)
  case Nil
  then show ?case by auto
next
  case (Cons x xs)
  show ?case
  proof (cases ys)
    case Nil
    then show ?thesis by (auto split: sum.splits)
  next
    case (Cons y ys')
    then show ?thesis
      using Cons.IH [of ys'] by (auto simp: less_Suc_eq_0_disj split: sum.splits)
  qed
qed

lemma series_apply_Inl:
  "series_apply f xs = Inl e \<Longrightarrow> \<exists>x\<in>set xs. f x = Inl e"
  by (induction xs) (auto split: sum.splits)

lemma series_apply_fails:
  "x \<in> set xs \<Longrightarrow> f x = Inl e \<Longrightarrow> \<exists>e'. series_apply f xs = Inl e'"
  by (induction xs) (auto split: sum.splits)

lemma get_abbr_error: "get_abbr lookup n = Inl e \<Longrightarrow> e = AttributeError ''abbr''"
  by (auto simp: get_abbr_def split: if_splits option.splits)

lemma heap_setitem_States:
  "heap (setitem_States r col w) = (heap w)(r := (heap w r)\<lparr>States := Some col\<rparr>)"
  "shown (setitem_States r col w) = shown w"
  "stdout (setitem_States r col w) = stdout w"
  by (simp_all add: setitem_States_def)

text \<open>The run of \<open>choropleth\<close> on a frame that has the column \<open>States\<close>.\<close>

lemma choropleth_run:
  assumes "States (heap w r) = Some col"
  shows "choropleth lookup r w =
     (case series_apply (get_abbr lookup) (map strip col) of
        Inl e \<Rightarrow> (Inl e, setitem_States r (map strip col) w)
      | Inr abbrs \<Rightarrow>
          (case numeric (heap w r) ''Avg_PM25'' of
             None \<Rightarrow> (Inl (KeyError ''Avg_PM25''),
                       setitem_States r abbrs (setitem_States r (map strip col) w))
           | Some pm \<Rightarrow>
               (Inr (),
                (setitem_States r abbrs (setitem_States r (map strip col) w))
                \<lparr>shown := shown w @
                   [px_choropleth ((heap w r)\<lparr>States := Some abbrs\<rparr>) ''States''
                      ''USA-states'' ''Avg_PM25'' ''usa'' color_scale
                      (series_min pm, series_max pm)
                      [(''Avg_PM25'', ''Average PM2.5'')]]\<rparr>)))"
  using assms
  by (simp add: choropleth_def getitem_States_def getitem_def heap_setitem_States Let_def
           split: sum.splits option.splits)



text \<open>
  C6.  When some cell of \<open>States\<close>, once trimmed, is not the District of Columbia and
  the lookup does not find it, \<open>choropleth\<close> raises \<open>AttributeError\<close>.  No figure is
  shown, and the world it leaves differs from the one it found only in the column
  \<open>States\<close> of the caller's frame, which holds the trimmed names of all rows: no
  abbreviation has been written.
\<close>

theorem choropleth_unknown_state:
  assumes "States (heap w r) = Some col"
    and "x \<in> set col"
    and "strip x \<noteq> ''District of Columbia''"
    and "lookup (strip x) = None"
  shows "\<exists>w'. choropleth lookup r w = (Inl (AttributeError ''abbr''), w') \<and>
              shown w' = shown w \<and> stdout w' = stdout w \<and>
              heap w' = (heap w)(r := (heap w r)\<lparr>States := Some (map strip col)\<rparr>)"
proof -
  have "get_abbr lookup (strip x) = Inl (AttributeError ''abbr'')"
    using assms(3,4) by (simp add: get_abbr_def)
  moreover have "strip x \<in> set (map strip col)" using assms(2) by simp
  ultimately have "\<exists>e. series_apply (get_abbr lookup) (map strip col) = Inl e"
    by (rule series_apply_fails [rotated])
  then obtain e where e: "series_apply (get_abbr lookup) (map strip col) = Inl e" ..
  from series_apply_Inl [OF e] obtain y where "get_abbr lookup y = Inl e" ..
  then have "e = AttributeError ''abbr''" by (rule get_abbr_error)
  then show ?thesis
    using e by (simp add: choropleth_run [OF assms(1)] heap_setitem_States)
qed

theorem choropleth_unknown_state_witness:
  "States (heap (initial_world atlantis_frame) 0) = Some ['' Texas'', ''Atlantis ''] \<and>
   ''Atlantis '' \<in> set ['' Texas'', ''Atlantis ''] \<and>
   strip ''Atlantis '' \<noteq> ''District of Columbia'' \<and>
   directory_lookup (strip ''Atlantis '') = None \<and>
   (\<exists>w'. choropleth directory_lookup 0 (initial_world atlantis_frame)
            = (Inl (AttributeError ''abbr''), w') \<and>
         shown w' = [] \<and> States (heap w' 0) = Some [''Texas'', ''Atlantis''])"
proof -
  have s: "strip ''Atlantis '' = ''Atlantis''" "strip '' Texas'' = ''Texas''"
    by (simp_all add: strip_def isspace_def)
  have h1: "States (heap (initial_world atlantis_frame) 0) = Some ['' Texas'', ''Atlantis '']"
    by (simp add: initial_world_def atlantis_frame_def)
  have h2: "''Atlantis '' \<in> set ['' Texas'', ''Atlantis '']" by simp
  have h3: "strip ''Atlantis '' \<noteq> ''District of Columbia''" by (simp add: s)
  have h4: "directory_lookup (strip ''Atlantis '') = None"
    unfolding s by code_simp
  from choropleth_unknown_state
         [where w = "initial_world atlantis_frame" and r = 0 and x = "''Atlantis ''"
            and lookup = directory_lookup, OF h1 h2 h3 h4]
  obtain w' where
    w': "choropleth directory_lookup 0 (initial_world atlantis_frame)
           = (Inl (AttributeError ''abbr''), w')"
      "shown w' = shown (initial_world atlantis_frame)"
      "heap w' = (heap (initial_world atlantis_frame))
         (0 := (heap (initial_world atlantis_frame) 0)
                 \<lparr>States := Some (map strip ['' Texas'', ''Atlantis ''])\<rparr>)"
    by blast
  have "shown w' = []" using w'(2) by (simp add: initial_world_def)
  moreover have "States (heap w' 0) = Some [''Texas'', ''Atlantis'']"
    unfolding w'(3) by (simp add: s)
  ultimately show ?thesis using w'(1) h1 h2 h3 h4 by blast
qed

text \<open>
  C9.  When \<open>choropleth\<close> returns, the caller's frame has the postal codes in the
  column \<open>States\<close>, one per row and in row order, each the result of \<open>get_abbr\<close> on
  the trimmed cell.  The numeric columns of that frame are unchanged, and so is every
  other frame.
\<close>

theorem choropleth_overwrites_States:
  assumes "choropleth lookup r w = (Inr (), w')"
  shows "\<exists>col abbrs.
           States (heap w r) = Some col \<and> length abbrs = length col \<and>
           (\<forall>i<length col. get_abbr lookup (strip (col ! i)) = Inr (abbrs ! i)) \<and>
           heap w' r = (heap w r)\<lparr>States := Some abbrs\<rparr> \<and>
           numeric (heap w' r) = numeric (heap w r) \<and>
           (\<forall>r'. r' \<noteq> r \<longrightarrow> heap w' r' = heap w r')"
proof (cases "States (heap w r)")
  case None
  then show ?thesis
    using assms by (simp add: choropleth_def getitem_States_def)
next
  case (Some col)
  from assms obtain abbrs where
    a: "series_apply (get_abbr lookup) (map strip col) = Inr abbrs"
    and w': "heap w' = (heap w)(r := (heap w r)\<lparr>States := Some abbrs\<rparr>)"
    unfolding choropleth_run [OF Some]
    by (auto simp: heap_setitem_States split: sum.splits option.splits)
  from a have "length abbrs = length col"
    and "\<forall>i<length col. get_abbr lookup (strip (col ! i)) = Inr (abbrs ! i)"
    by (simp_all add: series_apply_Inr)
  then show ?thesis
    using Some w' by (intro exI [of _ col] exI [of _ abbrs]) simp
qed

lemma choropleth_padded:
  "fst (choropleth directory_lookup 0 (initial_world padded_frame)) = Inr ()"
proof -
  have s: "strip ''  District of Columbia'' = ''District of Columbia''"
    "strip ''Ohio  '' = ''Ohio''"
    by (simp_all add: strip_def isspace_def)
  have l: "directory_lookup ''Ohio'' = Some \<lparr>state_name = ''Ohio'', abbr = ''OH''\<rparr>"
    by code_simp
  have c: "States (heap (initial_world padded_frame) 0)
             = Some [''  District of Columbia'', ''Ohio  '']"
    by (simp add: initial_world_def padded_frame_def)
  have n: "numeric (heap (initial_world padded_frame) 0) ''Avg_PM25'' = Some [10, 20]"
    by (simp add: initial_world_def padded_frame_def two_state_frame_def)
  show ?thesis
    by (simp add: choropleth_run [OF c] s l n get_abbr_def)
qed

theorem choropleth_overwrites_States_witness:
  "\<exists>w'. choropleth directory_lookup 0 (initial_world padded_frame) = (Inr (), w') \<and>
        States (heap w' 0) = Some [''DC'', ''OH''] \<and>
        numeric (heap w' 0) = numeric padded_frame \<and>
        heap w' 1 = padded_frame"
proof -
  obtain w' where r: "choropleth directory_lookup 0 (initial_world padded_frame) = (Inr (), w')"
    using choropleth_padded by (metis prod.collapse)
  have s: "strip ''  District of Columbia'' = ''District of Columbia''"
    "strip ''Ohio  '' = ''Ohio''"
    by (simp_all add: strip_def isspace_def)
  have l: "directory_lookup ''Ohio'' = Some \<lparr>state_name = ''Ohio'', abbr = ''OH''\<rparr>"
    by code_simp
  from choropleth_overwrites_States [OF r] obtain col abbrs where
    h: "States (heap (initial_world padded_frame) 0) = Some col"
      "length abbrs = length col"
      "\<forall>i<length col. get_abbr directory_lookup (strip (col ! i)) = Inr (abbrs ! i)"
      "heap w' 0 = (heap (initial_world padded_frame) 0)\<lparr>States := Some abbrs\<rparr>"
      "numeric (heap w' 0) = numeric (heap (initial_world padded_frame) 0)"
      "\<forall>r'. r' \<noteq> 0 \<longrightarrow> heap w' r' = heap (initial_world padded_frame) r'"
    by blast
  have col: "col = [''  District of Columbia'', ''Ohio  '']"
    using h(1) by (simp add: initial_world_def padded_frame_def)
  have "get_abbr directory_lookup (strip (col ! 0)) = Inr (abbrs ! 0)"
    and "get_abbr directory_lookup (strip (col ! 1)) = Inr (abbrs ! 1)"
    using h(3) [rule_format, of 0] h(3) [rule_format, of 1] by (simp_all add: col)
  then have "abbrs ! 0 = ''DC''" "abbrs ! 1 = ''OH''"
    by (simp_all add: col s l get_abbr_def)
  moreover have "length abbrs = 2" using h(2) by (simp add: col)
  ultimately have "abbrs = [''DC'', ''OH'']"
    by (simp add: list_eq_iff_nth_eq less_Suc_eq numeral_2_eq_2)
  then show ?thesis
    using r h(4,5,6) by (simp add: initial_world_def)
qed




subsection \<open>\<open>high_and_low\<close>\<close>

lemma summarize_column_run:
  assumes "numeric df col = Some xs" "States df = Some ss"
    and "idxmax xs = Inr i" "idxmin xs = Inr j" "i < length ss" "j < length ss"
  shows "summarize_column mean std df col =
     Inr \<lparr>Variable = col,
          Average_SD = format_2f (mean xs) @ plus_minus @ format_2f (std xs),
          Highest_State = ss ! i @ '' ('' @ format_2f (series_max xs) @ '')'',
          Lowest_State = ss ! j @ '' ('' @ format_2f (series_min xs) @ '')''\<rparr>"
  using assms by (simp add: summarize_column_def getitem_def loc_States_def Let_def)

lemma summarize_column_Inr:
  assumes "summarize_column mean std df col = Inr row"
  shows "\<exists>xs ss i j. numeric df col = Some xs \<and> States df = Some ss \<and>
           idxmax xs = Inr i \<and> idxmin xs = Inr j \<and> i < length ss \<and> j < length ss"
  using assms
  by (auto simp: summarize_column_def getitem_def loc_States_def Let_def
           split: option.splits sum.splits if_splits)

lemma summarize_column_succeeds:
  assumes "numeric df col = Some xs" "States df = Some ss" "xs \<noteq> []" "length ss = length xs"
  shows "\<exists>row. summarize_column mean std df col = Inr row \<and> Variable row = col"
proof -
  obtain i where i: "idxmax xs = Inr i" "i < length xs"
    using idxmax_first [OF assms(3)] by blast
  obtain j where j: "idxmin xs = Inr j" "j < length xs"
    using idxmin_first [OF assms(3)] by blast
  show ?thesis
    using summarize_column_run [OF assms(1,2) i(1) j(1), of mean std] i(2) j(2) assms(4)
    by simp
qed

lemma summary_loop_rows:
  assumes "States df = Some ss"
    and "\<forall>c\<in>set cols. \<exists>xs. numeric df c = Some xs \<and> xs \<noteq> [] \<and> length xs = length ss"
  shows "\<exists>rows. summary_loop mean std df cols summary = Inr (summary @ rows) \<and>
           length rows = length cols \<and>
           (\<forall>k<length cols. summarize_column mean std df (cols ! k) = Inr (rows ! k))"
  using assms(2)
proof (induction cols arbitrary: summary)
  case Nil
  then show ?case by simp
next
  case (Cons c cols)
  then obtain xs where xs: "numeric df c = Some xs" "xs \<noteq> []" "length xs = length ss"
    by auto
  obtain row where row: "summarize_column mean std df c = Inr row"
    using summarize_column_succeeds [OF xs(1) assms(1) xs(2), of mean std] xs(3) by auto
  obtain rows where
    rows: "summary_loop mean std df cols (summary @ [row]) = Inr ((summary @ [row]) @ rows)"
      "length rows = length cols"
      "\<forall>k<length cols. summarize_column mean std df (cols ! k) = Inr (rows ! k)"
    using Cons.IH [of "summary @ [row]"] Cons.prems by auto
  show ?case
  proof (intro exI [of _ "row # rows"] conjI allI impI)
    show "summary_loop mean std df (c # cols) summary = Inr (summary @ row # rows)"
      using row rows(1) by simp
    show "length (row # rows) = length (c # cols)" using rows(2) by simp
    fix k assume "k < length (c # cols)"
    then show "summarize_column mean std df ((c # cols) ! k) = Inr ((row # rows) ! k)"
      using row rows(3) by (cases k) auto
  qed
qed

text \<open>The loop on a frame whose summarized columns all have as many rows as \<open>States\<close>.\<close>

lemma summary_loop_columns:
  assumes "States df = Some ss"
    and "\<forall>c\<in>set columns_to_summarize.
           \<exists>xs. numeric df c = Some xs \<and> xs \<noteq> [] \<and> length xs = length ss"
  shows "\<exists>rows. summary_loop mean std df columns_to_summarize [] = Inr rows \<and>
           length rows = 8 \<and>
           (\<forall>k<8. summarize_column mean std df (columns_to_summarize ! k) = Inr (rows ! k))"
proof -
  have l: "length columns_to_summarize = 8" by (simp add: columns_to_summarize_def)
  show ?thesis
    using summary_loop_rows [OF assms, of mean std "[]"] unfolding l by simp
qed

lemma high_and_low_after_loop:
  assumes "summary_loop mean std (heap w r) columns_to_summarize [] = Inr rows"
  shows "high_and_low mean std r w = (Inl (NameError ''pd''), w)"
  using assms by (simp add: high_and_low_def load_global_def module_globals_def)

lemma high_and_low_never_prints: "stdout (snd (high_and_low mean std r w)) = stdout w"
  by (simp add: high_and_low_def load_global_def module_globals_def split: sum.splits)

subsection \<open>Rounding to two places\<close>

lemma round_half_even_near:
  assumes "\<bar>y - of_int k\<bar> < 1 / 2"
  shows "round_half_even y = k"
proof (cases "of_int k \<le> y")
  case True
  have "\<lfloor>y\<rfloor> = k" using assms True by (intro floor_unique) auto
  then show ?thesis using assms True by (simp add: round_half_even_def Let_def)
next
  case False
  have f: "\<lfloor>y\<rfloor> = k - 1" using assms False by (intro floor_unique) auto
  have "1 / 2 < y - of_int (k - 1)" using assms False by auto
  then show ?thesis unfolding round_half_even_def f Let_def by simp
qed

lemma format_2f_near:
  assumes "0 \<le> x" and "\<bar>x * 100 - real k\<bar> < 1 / 2"
  shows "format_2f (Finite x) =
           str_nat (k div 100) @ ''.'' @ [digit_char (k div 10 mod 10), digit_char (k mod 10)]"
proof -
  have "\<bar>\<bar>x\<bar> * 100 - of_int (int k)\<bar> < 1 / 2" using assms by simp
  then have "round_half_even (\<bar>x\<bar> * 100) = int k" by (rule round_half_even_near)
  then show ?thesis using assms(1) by (simp add: format_2f_def Let_def del: str_nat.simps)
qed

lemma format_samples:
  "format_2f (Finite 10) = ''10.00''"
  "format_2f (Finite 20) = ''20.00''"
  "format_2f (Finite 3) = ''3.00''"
  "format_2f (Finite 0) = ''0.00''"
  "format_2f (Finite (123 / 10)) = ''12.30''"
  "format_2f NaN = ''nan''"
  by (simp_all add: format_2f_def round_half_even_def digit_char_def Let_def)


lemma binary64_int: "\<bar>n\<bar> < 2 ^ 53 \<Longrightarrow> binary64 (real_of_int n)"
  unfolding binary64_def by (rule exI [of _ n], rule exI [of _ 0], rule exI [of _ 0]) simp

lemma binary64_samples:
  "binary64 0" "binary64 1" "binary64 3" "binary64 10" "binary64 20"
  using binary64_int [of 0] binary64_int [of 1] binary64_int [of 3] binary64_int [of 10]
    binary64_int [of 20]
  by simp_all


lemma two_state_columns:
  "\<forall>c\<in>set columns_to_summarize. \<exists>xs. numeric two_state_frame c = Some xs \<and> length xs = 2"
  by (simp add: columns_to_summarize_def two_state_frame_def)

lemma two_to_nonempty:
  assumes "\<forall>c\<in>set cols. \<exists>xs. numeric df c = Some xs \<and> length xs = 2"
  shows "\<forall>c\<in>set cols. \<exists>xs. numeric df c = Some xs \<and> xs \<noteq> [] \<and> length xs = length [s, t]"
  using assms by fastforce

subsection \<open>The summary rows\<close>

text \<open>
  C1.  On the two-row frame the loop of \<open>high_and_low\<close> builds one row per column of
  the fixed list, in the order of the list, whatever the library returns for the mean
  and the deviation.  The function then reads the name \<open>pd\<close>, which the module never
  binds: it raises \<open>NameError\<close> and leaves the world as it found it, so no table is
  printed.
\<close>

theorem high_and_low_NameError:
  "(\<exists>rows. summary_loop mean std two_state_frame columns_to_summarize [] = Inr rows \<and>
      map Variable rows = columns_to_summarize) \<and>
   high_and_low mean std 0 (initial_world two_state_frame)
     = (Inl (NameError ''pd''), initial_world two_state_frame) \<and>
   stdout (snd (high_and_low mean std 0 (initial_world two_state_frame))) = []"
proof -
  have s: "States two_state_frame = Some [''California'', ''Texas'']"
    by (simp add: two_state_frame_def)
  from summary_loop_rows [OF s two_to_nonempty [OF two_state_columns], of mean std "[]"]
  obtain rows where
    rows: "summary_loop mean std two_state_frame columns_to_summarize [] = Inr rows"
      "length rows = length columns_to_summarize"
      "\<forall>k<length columns_to_summarize.
         summarize_column mean std two_state_frame (columns_to_summarize ! k) = Inr (rows ! k)"
    by auto
  have "\<forall>k<length columns_to_summarize. Variable (rows ! k) = columns_to_summarize ! k"
  proof (intro allI impI)
    fix k assume k: "k < length columns_to_summarize"
    then have r: "summarize_column mean std two_state_frame (columns_to_summarize ! k)
                    = Inr (rows ! k)"
      using rows(3) by simp
    from summarize_column_Inr [OF r] obtain xs ss i j where
      "numeric two_state_frame (columns_to_summarize ! k) = Some xs"
      "States two_state_frame = Some ss" "idxmax xs = Inr i" "idxmin xs = Inr j"
      "i < length ss" "j < length ss"
      by blast
    from summarize_column_run [OF this, of mean std] r
    show "Variable (rows ! k) = columns_to_summarize ! k" by auto
  qed
  then have v: "map Variable rows = columns_to_summarize"
    using rows(2) by (simp add: list_eq_iff_nth_eq)
  have "heap (initial_world two_state_frame) 0 = two_state_frame"
    by (simp add: initial_world_def)
  then have h: "high_and_low mean std 0 (initial_world two_state_frame)
          = (Inl (NameError ''pd''), initial_world two_state_frame)"
    using high_and_low_after_loop [of mean std "initial_world two_state_frame" 0 rows] rows(1)
    by simp
  have "stdout (snd (high_and_low mean std 0 (initial_world two_state_frame))) = []"
    unfolding h by (simp add: initial_world_def)
  then show ?thesis using rows(1) v h by blast
qed

text \<open>
  C5.  Take a frame on which the loop of \<open>high_and_low\<close> finishes, and a summarized
  column of floats whose greatest cell first occurs in row \<open>i\<close> and whose least cell
  first occurs in row \<open>j\<close>, whether or not later rows hold the same value.  The row
  that the loop builds for the column names the state of row \<open>i\<close> as highest and the
  state of row \<open>j\<close> as lowest, each with the extreme value.  The function does not
  report it: it raises \<open>NameError\<close> at the name \<open>pd\<close> and leaves the world as it
  found it.
\<close>

theorem ties_first_row:
  assumes "States (heap w r) = Some ss"
    and "\<forall>c\<in>set columns_to_summarize.
           \<exists>ys. numeric (heap w r) c = Some ys \<and> ys \<noteq> [] \<and> length ys = length ss"
    and "k < 8" and "numeric (heap w r) (columns_to_summarize ! k) = Some xs"
    and "list_all binary64 xs"
    and "i < length xs" and "xs ! i = Max (set xs)" and "\<forall>n<i. xs ! n \<noteq> Max (set xs)"
    and "j < length xs" and "xs ! j = Min (set xs)" and "\<forall>n<j. xs ! n \<noteq> Min (set xs)"
  shows "(\<exists>rows. summary_loop mean std (heap w r) columns_to_summarize [] = Inr rows \<and>
            Highest_State (rows ! k) = ss ! i @ '' ('' @ format_2f (Finite (xs ! i)) @ '')'' \<and>
            Lowest_State (rows ! k) = ss ! j @ '' ('' @ format_2f (Finite (xs ! j)) @ '')'') \<and>
         high_and_low mean std r w = (Inl (NameError ''pd''), w)"
proof -
  from summary_loop_columns [OF assms(1,2), of mean std]
  obtain rows where
    rows: "summary_loop mean std (heap w r) columns_to_summarize [] = Inr rows"
      "\<forall>k<8. summarize_column mean std (heap w r) (columns_to_summarize ! k) = Inr (rows ! k)"
    by blast
  have row: "summarize_column mean std (heap w r) (columns_to_summarize ! k) = Inr (rows ! k)"
    using rows(2) assms(3) by blast
  have "columns_to_summarize ! k \<in> set columns_to_summarize"
    using assms(3) by (intro nth_mem) (simp add: columns_to_summarize_def)
  then obtain ys where "numeric (heap w r) (columns_to_summarize ! k) = Some ys"
    "length ys = length ss"
    using assms(2) by blast
  then have "length xs = length ss" using assms(4) by simp
  then have b: "i < length ss" "j < length ss" using assms(6,9) by simp_all
  have ne: "xs \<noteq> []" using assms(6) by auto
  have i: "idxmax xs = Inr i" using assms(6,7,8) by (rule idxmax_eq)
  have j: "idxmin xs = Inr j" using assms(9,10,11) by (rule idxmin_eq)
  have "rows ! k =
     \<lparr>Variable = columns_to_summarize ! k,
      Average_SD = format_2f (mean xs) @ plus_minus @ format_2f (std xs),
      Highest_State = ss ! i @ '' ('' @ format_2f (series_max xs) @ '')'',
      Lowest_State = ss ! j @ '' ('' @ format_2f (series_min xs) @ '')''\<rparr>"
    using row unfolding summarize_column_run [OF assms(4,1) i j b] by simp
  then have "Highest_State (rows ! k) = ss ! i @ '' ('' @ format_2f (Finite (xs ! i)) @ '')''"
    and "Lowest_State (rows ! k) = ss ! j @ '' ('' @ format_2f (Finite (xs ! j)) @ '')''"
    by (simp_all add: series_max_Max [OF ne] series_min_Min [OF ne] assms(7,10))
  then show ?thesis
    using rows(1) high_and_low_after_loop [OF rows(1)] by blast
qed

lemma tied_columns:
  "\<forall>c\<in>set columns_to_summarize.
     \<exists>ys. numeric tied_frame c = Some ys \<and> ys \<noteq> [] \<and>
          length ys = length [''Ohio'', ''Utah'', ''Iowa'', ''Maine'', ''Texas'']"
  by (simp add: columns_to_summarize_def tied_frame_def)

theorem ties_first_row_witness:
  "(\<exists>rows. summary_loop arithmetic_mean sample_std tied_frame columns_to_summarize [] = Inr rows \<and>
      Highest_State (rows ! 1) = ''Utah (3.00)'' \<and>
      Lowest_State (rows ! 1) = ''Maine (0.00)'') \<and>
   high_and_low arithmetic_mean sample_std 0 (initial_world tied_frame)
     = (Inl (NameError ''pd''), initial_world tied_frame)"
proof -
  let ?w = "initial_world tied_frame"
  let ?xs = "[1, 3, 3, 0, 0] :: real list"
  let ?ss = "[''Ohio'', ''Utah'', ''Iowa'', ''Maine'', ''Texas'']"
  have hp: "heap ?w 0 = tied_frame" by (simp add: initial_world_def)
  have mx: "Max (set ?xs) = 3" and mn: "Min (set ?xs) = 0" by simp_all
  have h1: "States (heap ?w 0) = Some ?ss" unfolding hp by (simp add: tied_frame_def)
  have h2: "\<forall>c\<in>set columns_to_summarize.
     \<exists>ys. numeric (heap ?w 0) c = Some ys \<and> ys \<noteq> [] \<and> length ys = length ?ss"
    unfolding hp by (rule tied_columns)
  have h3: "(1::nat) < 8" by simp
  have h4: "numeric (heap ?w 0) (columns_to_summarize ! 1) = Some ?xs"
    unfolding hp by (simp add: tied_frame_def columns_to_summarize_def)
  have h5: "list_all binary64 ?xs" by (simp add: binary64_samples)
  have h6: "1 < length ?xs" by simp
  have h7: "?xs ! 1 = Max (set ?xs)" unfolding mx by simp
  have h8: "\<forall>n<1. ?xs ! n \<noteq> Max (set ?xs)" unfolding mx by simp
  have h9: "3 < length ?xs" by simp
  have h10: "?xs ! 3 = Min (set ?xs)" unfolding mn by simp
  have h11: "\<forall>n<3. ?xs ! n \<noteq> Min (set ?xs)"
    unfolding mn by (simp add: less_Suc_eq numeral_3_eq_3)
  from ties_first_row [OF h1 h2 h3 h4 h5 h6 h7 h8 h9 h10 h11, of arithmetic_mean sample_std]
  obtain rows where
    r: "summary_loop arithmetic_mean sample_std (heap ?w 0) columns_to_summarize [] = Inr rows"
      "Highest_State (rows ! 1) = ?ss ! 1 @ '' ('' @ format_2f (Finite (?xs ! 1)) @ '')''"
      "Lowest_State (rows ! 1) = ?ss ! 3 @ '' ('' @ format_2f (Finite (?xs ! 3)) @ '')''"
    and e: "high_and_low arithmetic_mean sample_std 0 ?w = (Inl (NameError ''pd''), ?w)"
    by blast
  have "Highest_State (rows ! 1) = ''Utah (3.00)''" using r(2) by (simp add: format_samples)
  moreover have "Lowest_State (rows ! 1) = ''Maine (0.00)''"
    using r(3) by (simp add: format_samples)
  ultimately show ?thesis using r(1) e unfolding hp by blast
qed




lemma sqrt_200_bounds: "707 / 10000 \<le> sqrt (1 / 200)" "sqrt (1 / 200) \<le> 708 / 10000"
proof -
  show "707 / 10000 \<le> sqrt (1 / 200)"
    by (rule real_le_rsqrt) (simp add: power2_eq_square)
  show "sqrt (1 / 200) \<le> 708 / 10000"
    by (rule real_le_lsqrt) (simp_all add: power2_eq_square)
qed

lemma format_2f_hundredths:
  assumes "0 \<le> x" and "\<bar>x * 100 - numeral k\<bar> < 1 / 2"
  shows "format_2f (Finite x) =
           str_nat (numeral k div 100) @ ''.''
           @ [digit_char (numeral k div 10 mod 10), digit_char (numeral k mod 10)]"
proof -
  have "\<bar>x * 100 - real (numeral k)\<bar> < 1 / 2" using assms(2) by (simp only: of_nat_numeral)
  from format_2f_near [OF assms(1) this] show ?thesis .
qed

lemma format_near_0_90: "\<bar>x - 9 / 10\<bar> < 1 / 1000 \<Longrightarrow> format_2f (Finite x) = ''0.90''"
proof -
  assume a: "\<bar>x - 9 / 10\<bar> < 1 / 1000"
  have "0 \<le> x" "\<bar>x * 100 - 90\<bar> < 1 / 2" using a by linarith+
  from format_2f_hundredths [OF this] show ?thesis by (simp add: digit_char_def)
qed

lemma format_near_0_80: "\<bar>x - 8 / 10\<bar> < 1 / 1000 \<Longrightarrow> format_2f (Finite x) = ''0.80''"
proof -
  assume a: "\<bar>x - 8 / 10\<bar> < 1 / 1000"
  have "0 \<le> x" "\<bar>x * 100 - 80\<bar> < 1 / 2" using a by linarith+
  from format_2f_hundredths [OF this] show ?thesis by (simp add: digit_char_def)
qed

lemma format_near_0_85: "\<bar>x - 85 / 100\<bar> < 1 / 1000 \<Longrightarrow> format_2f (Finite x) = ''0.85''"
proof -
  assume a: "\<bar>x - 85 / 100\<bar> < 1 / 1000"
  have "0 \<le> x" "\<bar>x * 100 - 85\<bar> < 1 / 2" using a by linarith+
  from format_2f_hundredths [OF this] show ?thesis by (simp add: digit_char_def)
qed

lemma format_near_0_07:
  "\<bar>x - sqrt (1 / 200)\<bar> < 1 / 1000 \<Longrightarrow> format_2f (Finite x) = ''0.07''"
proof -
  assume a: "\<bar>x - sqrt (1 / 200)\<bar> < 1 / 1000"
  have "0 \<le> x" "\<bar>x * 100 - 7\<bar> < 1 / 2" using a sqrt_200_bounds by linarith+
  from format_2f_hundredths [OF this] show ?thesis by (simp add: digit_char_def)
qed

text \<open>
  C7.  Take a frame with the states CA and TX whose column \<open>HDI\<close> holds the floats of
  0.9 and 0.8 (any two cells within a thousandth of them), whose other summarized
  columns hold two cells each, and a library whose mean and deviation of the two cells
  are within a thousandth of 0.85 and of the sample standard deviation, the square
  root of 1/200.  The loop of \<open>high_and_low\<close> builds eight rows, and the row for
  \<open>HDI\<close>, the second one, reads \<open>CA (0.90)\<close> as highest, \<open>TX (0.80)\<close> as lowest and
  \<open>0.85 \<plusminus> 0.07\<close> as average and deviation.  The function does not deliver the row: it
  raises \<open>NameError\<close> at the name \<open>pd\<close> and leaves the world as it found it.
\<close>

theorem hdi_scenario:
  assumes "States (heap w r) = Some [''CA'', ''TX'']"
    and "numeric (heap w r) ''HDI'' = Some [a, b]"
    and "\<bar>a - 9 / 10\<bar> < 1 / 1000" and "\<bar>b - 8 / 10\<bar> < 1 / 1000"
    and "mean [a, b] = Finite m" and "\<bar>m - 85 / 100\<bar> < 1 / 1000"
    and "std [a, b] = Finite sd" and "\<bar>sd - sqrt (1 / 200)\<bar> < 1 / 1000"
    and "\<forall>c\<in>set columns_to_summarize. \<exists>xs. numeric (heap w r) c = Some xs \<and> length xs = 2"
  shows "(\<exists>rows. summary_loop mean std (heap w r) columns_to_summarize [] = Inr rows \<and>
            length rows = 8 \<and>
            rows ! 1 = \<lparr>Variable = ''HDI'',
                         Average_SD = ''0.85'' @ plus_minus @ ''0.07'',
                         Highest_State = ''CA (0.90)'',
                         Lowest_State = ''TX (0.80)''\<rparr>) \<and>
         high_and_low mean std r w = (Inl (NameError ''pd''), w)"
proof -
  from summary_loop_columns [OF assms(1) two_to_nonempty [OF assms(9)], of mean std]
  obtain rows where
    rows: "summary_loop mean std (heap w r) columns_to_summarize [] = Inr rows"
      "length rows = 8"
      "\<forall>k<8. summarize_column mean std (heap w r) (columns_to_summarize ! k) = Inr (rows ! k)"
    by blast
  have c: "columns_to_summarize ! 1 = ''HDI''" by (simp add: columns_to_summarize_def)
  have "summarize_column mean std (heap w r) (columns_to_summarize ! 1) = Inr (rows ! 1)"
    using rows(3) by simp
  then have row: "summarize_column mean std (heap w r) ''HDI'' = Inr (rows ! 1)"
    unfolding c .
  have ba: "b < a" using assms(3,4) by linarith
  have i: "idxmax [a, b] = Inr 0" "idxmin [a, b] = Inr 1"
    using ba by (simp_all add: idxmax_def idxmin_def)
  have x: "series_max [a, b] = Finite a" "series_min [a, b] = Finite b"
    using ba by (simp_all add: series_max_def series_min_def)
  have bd: "0 < length [''CA'', ''TX'']" "1 < length [''CA'', ''TX'']" by simp_all
  have f: "format_2f (Finite a) = ''0.90''" "format_2f (Finite b) = ''0.80''"
    "format_2f (Finite m) = ''0.85''" "format_2f (Finite sd) = ''0.07''"
    using format_near_0_90 [OF assms(3)] format_near_0_80 [OF assms(4)]
      format_near_0_85 [OF assms(6)] format_near_0_07 [OF assms(8)]
    by blast+
  have "rows ! 1 = \<lparr>Variable = ''HDI'',
                         Average_SD = ''0.85'' @ plus_minus @ ''0.07'',
                         Highest_State = ''CA (0.90)'',
                         Lowest_State = ''TX (0.80)''\<rparr>"
    using row
    unfolding summarize_column_run [OF assms(2,1) i bd] x assms(5,7) f
    by simp
  then show ?thesis
    using rows(1,2) high_and_low_after_loop [OF rows(1)] by blast
qed

lemma float_mean:
  "arithmetic_mean [float_0_9, float_0_8] = Finite ((float_0_9 + float_0_8) / 2)"
  by (simp add: arithmetic_mean_def)

lemma float_std:
  "sample_std [float_0_9, float_0_8] =
     Finite (sqrt ((float_0_9 - (float_0_9 + float_0_8) / 2)\<^sup>2
                   + (float_0_8 - (float_0_9 + float_0_8) / 2)\<^sup>2))"
  by (simp add: sample_std_def Let_def)

lemma float_std_near:
  "\<bar>sqrt ((float_0_9 - (float_0_9 + float_0_8) / 2)\<^sup>2
          + (float_0_8 - (float_0_9 + float_0_8) / 2)\<^sup>2) - sqrt (1 / 200)\<bar> < 1 / 1000"
proof -
  let ?v = "(float_0_9 - (float_0_9 + float_0_8) / 2)\<^sup>2
            + (float_0_8 - (float_0_9 + float_0_8) / 2)\<^sup>2"
  have "707 / 10000 \<le> sqrt ?v"
    by (rule real_le_rsqrt) (simp add: power2_eq_square float_0_9_def float_0_8_def)
  moreover have "sqrt ?v \<le> 708 / 10000"
    by (rule real_le_lsqrt) (simp_all add: power2_eq_square float_0_9_def float_0_8_def)
  ultimately show ?thesis using sqrt_200_bounds by linarith
qed

theorem hdi_scenario_witness:
  "States abbreviated_frame = Some [''CA'', ''TX''] \<and>
   numeric abbreviated_frame ''HDI'' = Some [float_0_9, float_0_8] \<and>
   \<bar>float_0_9 - 9 / 10\<bar> < 1 / 1000 \<and> \<bar>float_0_8 - 8 / 10\<bar> < 1 / 1000 \<and>
   (\<exists>rows. summary_loop arithmetic_mean sample_std abbreviated_frame columns_to_summarize []
             = Inr rows \<and>
      length rows = 8 \<and>
      rows ! 1 = \<lparr>Variable = ''HDI'',
                   Average_SD = ''0.85'' @ plus_minus @ ''0.07'',
                   Highest_State = ''CA (0.90)'',
                   Lowest_State = ''TX (0.80)''\<rparr>) \<and>
   high_and_low arithmetic_mean sample_std 0 (initial_world abbreviated_frame)
     = (Inl (NameError ''pd''), initial_world abbreviated_frame)"
proof -
  let ?w = "initial_world abbreviated_frame"
  have hp: "heap ?w 0 = abbreviated_frame" by (simp add: initial_world_def)
  have h1: "States (heap ?w 0) = Some [''CA'', ''TX'']"
    unfolding hp by (simp add: abbreviated_frame_def)
  have h2: "numeric (heap ?w 0) ''HDI'' = Some [float_0_9, float_0_8]"
    unfolding hp by (simp add: abbreviated_frame_def two_state_frame_def)
  have h3: "\<bar>float_0_9 - 9 / 10\<bar> < 1 / 1000" by (simp add: float_0_9_def)
  have h4: "\<bar>float_0_8 - 8 / 10\<bar> < 1 / 1000" by (simp add: float_0_8_def)
  have h6: "\<bar>(float_0_9 + float_0_8) / 2 - 85 / 100\<bar> < 1 / 1000"
    by (simp add: float_0_9_def float_0_8_def)
  have h9: "\<forall>c\<in>set columns_to_summarize.
              \<exists>xs. numeric (heap ?w 0) c = Some xs \<and> length xs = 2"
    unfolding hp using two_state_columns by (simp add: abbreviated_frame_def)
  from hdi_scenario
         [where w = ?w and r = 0 and mean = arithmetic_mean and std = sample_std,
          OF h1 h2 h3 h4 float_mean h6 float_std float_std_near h9]
  show ?thesis using h1 h2 h3 h4 unfolding hp by blast
qed




end
